theory Spec2Isabelle
  imports Complex_Main
begin

section \<open>Numbers\<close>

text \<open>
  The program computes with JavaScript numbers. Finite values are modelled as reals
  (no rounding, no overflow); the three non-finite values are kept as constructors,
  so that a result which is the literal \<open>Infinity\<close>, or a division by zero, stays visible.
  Counters that start at 0 and move by whole steps are modelled as \<open>int\<close>.
\<close>

datatype number = Num real | PosInfinity | NegInfinity | NaN

text \<open>The quotient \<open>x / y\<close> of two finite values (zero is taken as positive zero).\<close>

definition js_div :: "real \<Rightarrow> real \<Rightarrow> number" where
  "js_div x y =
     (if y \<noteq> 0 then Num (x / y)
      else if 0 < x then PosInfinity
      else if x < 0 then NegInfinity
      else NaN)"

text \<open>Sum and quotient of a number and a finite value.\<close>

fun num_add :: "number \<Rightarrow> real \<Rightarrow> number" where
  "num_add (Num x) y = Num (x + y)"
| "num_add PosInfinity y = PosInfinity"
| "num_add NegInfinity y = NegInfinity"
| "num_add NaN y = NaN"

fun num_div :: "number \<Rightarrow> real \<Rightarrow> number" where
  "num_div (Num x) y = js_div x y"
| "num_div PosInfinity y = (if y < 0 then NegInfinity else PosInfinity)"
| "num_div NegInfinity y = (if y < 0 then PosInfinity else NegInfinity)"
| "num_div NaN y = NaN"

text \<open>\<open>Math.pow\<close> with a whole exponent, on a base that is not zero.\<close>

definition Math_pow :: "real \<Rightarrow> int \<Rightarrow> real" where
  "Math_pow x n = (if 0 \<le> n then x ^ nat n else 1 / x ^ nat (- n))"

section \<open>The M/M/c model (MMCQueueingModel)\<close>

record QueueingParameters =
  arrivalRate :: real
  serviceRate :: real
  numServers :: int

record QueueMetrics =
  utilization :: real
  averageQueueLength :: number
  averageSystemLength :: number
  averageWaitTime :: number
  averageSystemTime :: number
  isStable :: bool

text \<open>The helper \<open>factorial\<close>, the same in both model classes: its loop runs from 2 to n.\<close>

function factorialLoop :: "int \<Rightarrow> int \<Rightarrow> real \<Rightarrow> real" where
  "factorialLoop n i result =
     (if i \<le> n then factorialLoop n (i + 1) (result * real_of_int i) else result)"
  by pat_completeness auto
termination
  by (relation "measure (\<lambda>(n, i, result). nat (n + 1 - i))") auto

declare factorialLoop.simps [simp del]

definition factorial :: "int \<Rightarrow> real" where
  "factorial n = (if n \<le> 1 then 1 else factorialLoop n 2 1)"

text \<open>
  The loop \<open>for (let k = 0; k < c; k++) sum += Math.pow(a, k) / factorial(k)\<close>, which
  builds the denominator in \<open>calculateErlangC\<close> and \<open>sum1\<close> in \<open>calculateP0\<close>.
\<close>

function seriesLoop :: "real \<Rightarrow> int \<Rightarrow> int \<Rightarrow> real \<Rightarrow> real" where
  "seriesLoop a c k acc =
     (if k < c then seriesLoop a c (k + 1) (acc + Math_pow a k / factorial k) else acc)"
  by pat_completeness auto
termination
  by (relation "measure (\<lambda>(a, c, k, acc). nat (c - k))") auto

declare seriesLoop.simps [simp del]

definition calculateUtilization :: "'a QueueingParameters_scheme \<Rightarrow> real" where
  "calculateUtilization params =
     arrivalRate params / (serviceRate params * real_of_int (numServers params))"

definition isSystemStable :: "'a QueueingParameters_scheme \<Rightarrow> bool" where
  "isSystemStable params \<longleftrightarrow> calculateUtilization params < 1"

definition calculateErlangC :: "'a QueueingParameters_scheme \<Rightarrow> real" where
  "calculateErlangC params =
     (let a = arrivalRate params / serviceRate params;
          c = numServers params
      in if real_of_int c \<le> a then 1
         else
           let numerator0 = Math_pow a c / factorial c;
               numerator = numerator0 * (real_of_int c / (real_of_int c - a));
               denominator = seriesLoop a c 0 0 + numerator
           in numerator / denominator)"

definition calculateAverageQueueLength :: "'a QueueingParameters_scheme \<Rightarrow> number" where
  "calculateAverageQueueLength params =
     (if \<not> isSystemStable params then PosInfinity
      else
        let rho = calculateUtilization params;
            erlangC = calculateErlangC params
        in Num ((erlangC * rho) / (1 - rho)))"

definition calculateAverageSystemLength :: "'a QueueingParameters_scheme \<Rightarrow> number" where
  "calculateAverageSystemLength params =
     (if \<not> isSystemStable params then PosInfinity
      else
        let lq = calculateAverageQueueLength params
        in num_add lq (arrivalRate params / serviceRate params))"

definition calculateAverageWaitTime :: "'a QueueingParameters_scheme \<Rightarrow> number" where
  "calculateAverageWaitTime params =
     (if \<not> isSystemStable params then PosInfinity
      else
        let lq = calculateAverageQueueLength params
        in num_div lq (arrivalRate params))"

definition calculateAverageSystemTime :: "'a QueueingParameters_scheme \<Rightarrow> number" where
  "calculateAverageSystemTime params =
     (if \<not> isSystemStable params then PosInfinity
      else
        let l = calculateAverageSystemLength params
        in num_div l (arrivalRate params))"

definition calculateMetrics :: "'a QueueingParameters_scheme \<Rightarrow> QueueMetrics" where
  "calculateMetrics params =
     (let utilization = calculateUtilization params;
          isStable = isSystemStable params
      in if \<not> isStable
         then \<lparr>utilization = utilization,
               averageQueueLength = PosInfinity,
               averageSystemLength = PosInfinity,
               averageWaitTime = PosInfinity,
               averageSystemTime = PosInfinity,
               isStable = False\<rparr>
         else \<lparr>utilization = utilization,
               averageQueueLength = calculateAverageQueueLength params,
               averageSystemLength = calculateAverageSystemLength params,
               averageWaitTime = calculateAverageWaitTime params,
               averageSystemTime = calculateAverageSystemTime params,
               isStable = True\<rparr>)"

section \<open>The M/M/c/K model (MMCKQueueingModel)\<close>

record MMCKQueueingParameters = QueueingParameters +
  maxCapacity :: int

record MMCKQueueMetrics = QueueMetrics +
  rejectionProbability :: real

text \<open>The tolerance \<open>1e-10\<close> of the test for a utilization of one.\<close>

definition rhoTolerance :: real where
  "rhoTolerance = 1 / 10 ^ 10"

definition calculateP0 :: "MMCKQueueingParameters \<Rightarrow> real" where
  "calculateP0 params =
     (let a = arrivalRate params / serviceRate params;
          rho = arrivalRate params / (real_of_int (numServers params) * serviceRate params);
          c = numServers params;
          K = maxCapacity params;
          sum1 = seriesLoop a c 0 0;
          acOverCFact = Math_pow a c / factorial c;
          sum2 = (if \<bar>rho - 1\<bar> < rhoTolerance
                  then acOverCFact * real_of_int (K - c + 1)
                  else acOverCFact * (1 - Math_pow rho (K - c + 1)) / (1 - rho))
      in 1 / (sum1 + sum2))"

definition calculateRejectionProbability :: "MMCKQueueingParameters \<Rightarrow> real" where
  "calculateRejectionProbability params =
     (let a = arrivalRate params / serviceRate params;
          rho = arrivalRate params / (real_of_int (numServers params) * serviceRate params);
          c = numServers params;
          K = maxCapacity params;
          p0 = calculateP0 params
      in if K \<le> c then p0 * Math_pow a K / factorial K
         else p0 * (Math_pow a c / factorial c) * Math_pow rho (K - c))"

definition calculateAverageQueueLength_K :: "MMCKQueueingParameters \<Rightarrow> real" where
  "calculateAverageQueueLength_K params =
     (let a = arrivalRate params / serviceRate params;
          rho = arrivalRate params / (real_of_int (numServers params) * serviceRate params);
          c = numServers params;
          K = maxCapacity params;
          p0 = calculateP0 params;
          acOverCFact = Math_pow a c / factorial c
      in if \<bar>rho - 1\<bar> < rhoTolerance
         then acOverCFact * p0 * real_of_int ((K - c) * (K - c + 1)) / 2
         else
           let n = K - c;
               numerator =
                 1 - Math_pow rho (n + 1)
                   - real_of_int (n + 1) * Math_pow rho n * (1 - rho)
           in (acOverCFact * rho * p0 * numerator) / Math_pow (1 - rho) 2)"

definition calculateMetrics_K :: "MMCKQueueingParameters \<Rightarrow> MMCKQueueMetrics" where
  "calculateMetrics_K params =
     (let rho = arrivalRate params / (real_of_int (numServers params) * serviceRate params);
          rejectionProbability = calculateRejectionProbability params;
          lambdaEff = arrivalRate params * (1 - rejectionProbability);
          lq = calculateAverageQueueLength_K params;
          l = lq + (if 0 < lambdaEff then lambdaEff / serviceRate params else 0);
          wq = (if 0 < lambdaEff then lq / lambdaEff else 0);
          w = (if 0 < lambdaEff then l / lambdaEff else 0)
      in \<lparr>utilization = rho,
          averageQueueLength = Num lq,
          averageSystemLength = Num l,
          averageWaitTime = Num wq,
          averageSystemTime = Num w,
          isStable = True,
          rejectionProbability = rejectionProbability\<rparr>)"

section \<open>The simulation engine (QueueSimulation)\<close>

record SimulationState =
  currentTime :: real
  queueLength :: int
  serversBusy :: int
  totalArrivals :: int
  totalServed :: int
  cumulativeQueueLength :: int
  timeSteps :: int

text \<open>
  The interface \<open>SimulationConfig\<close> declares the three fields of
  \<open>QueueingParameters\<close> and \<open>timeStep\<close>. The application also passes \<open>maxCapacity\<close> to
  \<open>updateConfig\<close> (a number, or \<open>undefined\<close> for the infinite-capacity model), and the
  object spread there stores it in the configuration object, so the record carries it
  as an optional field, \<open>maxCapacity_opt\<close>.
\<close>

record SimulationConfig = QueueingParameters +
  timeStep :: real
  maxCapacity_opt :: "int option"

text \<open>
  \<open>Partial<SimulationConfig>\<close>: every field may be absent (\<open>None\<close>). A present
  \<open>maxCapacity\<close> may itself be \<open>undefined\<close>.
\<close>

record PartialConfig =
  p_arrivalRate :: "real option"
  p_serviceRate :: "real option"
  p_numServers :: "int option"
  p_timeStep :: "real option"
  p_maxCapacity :: "int option option"

record QueueSimulation =
  state :: SimulationState
  config :: SimulationConfig

text \<open>
  One call of \<open>step\<close> draws from \<open>Math.random()\<close> once for the arrival and once per
  iteration of the service loop. The draws are inputs of the model.
\<close>

record StepDraws =
  arrivalDraw :: real
  serviceDraws :: "nat \<Rightarrow> real"

definition getInitialState :: SimulationState where
  "getInitialState =
     \<lparr>currentTime = 0, queueLength = 0, serversBusy = 0, totalArrivals = 0,
      totalServed = 0, cumulativeQueueLength = 0, timeSteps = 0\<rparr>"

definition newQueueSimulation :: "SimulationConfig \<Rightarrow> QueueSimulation" where
  "newQueueSimulation cfg = \<lparr>state = getInitialState, config = cfg\<rparr>"

definition reset :: "QueueSimulation \<Rightarrow> QueueSimulation" where
  "reset sim = sim\<lparr>state := getInitialState\<rparr>"

definition spread :: "'a \<Rightarrow> 'a option \<Rightarrow> 'a" where
  "spread old new = (case new of None \<Rightarrow> old | Some v \<Rightarrow> v)"

definition updateConfig :: "PartialConfig \<Rightarrow> QueueSimulation \<Rightarrow> QueueSimulation" where
  "updateConfig p sim =
     sim\<lparr>config :=
       \<lparr>arrivalRate = spread (arrivalRate (config sim)) (p_arrivalRate p),
        serviceRate = spread (serviceRate (config sim)) (p_serviceRate p),
        numServers = spread (numServers (config sim)) (p_numServers p),
        timeStep = spread (timeStep (config sim)) (p_timeStep p),
        maxCapacity_opt = spread (maxCapacity_opt (config sim)) (p_maxCapacity p)\<rparr>\<rparr>"

definition getQueueLength :: "QueueSimulation \<Rightarrow> int" where
  "getQueueLength sim = queueLength (state sim)"

definition getCurrentTime :: "QueueSimulation \<Rightarrow> real" where
  "getCurrentTime sim = currentTime (state sim)"

definition getAverageQueueLength :: "QueueSimulation \<Rightarrow> number" where
  "getAverageQueueLength sim =
     (if timeSteps (state sim) = 0 then Num 0
      else js_div (real_of_int (cumulativeQueueLength (state sim)))
                  (real_of_int (timeSteps (state sim))))"

text \<open>
  The service loop \<open>for (let i = 0; i < serversCurrentlyBusy; i++)\<close>: draw number \<open>i\<close>
  completes a service when it is below the completion probability.
\<close>

function completionsLoop :: "real \<Rightarrow> (nat \<Rightarrow> real) \<Rightarrow> int \<Rightarrow> int \<Rightarrow> int \<Rightarrow> int" where
  "completionsLoop prob draws busy i completions =
     (if i < busy
      then completionsLoop prob draws busy (i + 1)
             (if draws (nat i) < prob then completions + 1 else completions)
      else completions)"
  by pat_completeness auto
termination
  by (relation "measure (\<lambda>(prob, draws, busy, i, completions). nat (busy - i))") auto

declare completionsLoop.simps [simp del]

definition stepState :: "SimulationConfig \<Rightarrow> StepDraws \<Rightarrow> SimulationState \<Rightarrow> SimulationState" where
  "stepState cfg rnd s =
     (let arrivalRatePerSec = arrivalRate cfg / 60;
          serviceRatePerSec = serviceRate cfg / 60;
          arrivalProbability = arrivalRatePerSec * timeStep cfg;
          arrivals = (if arrivalDraw rnd < arrivalProbability then 1 else 0 :: int);
          s1 = (if arrivals > 0
                then s\<lparr>totalArrivals := totalArrivals s + arrivals,
                       queueLength := queueLength s + arrivals\<rparr>
                else s);
          serversCurrentlyBusy = min (queueLength s1 + serversBusy s1) (numServers cfg);
          completions =
            completionsLoop (serviceRatePerSec * timeStep cfg) (serviceDraws rnd)
              serversCurrentlyBusy 0 0;
          s2 = s1\<lparr>totalServed := totalServed s1 + completions\<rparr>;
          customersToServe = min (queueLength s2) completions;
          s3 = s2\<lparr>queueLength := queueLength s2 - customersToServe\<rparr>;
          s4 = s3\<lparr>serversBusy := max 0 (serversCurrentlyBusy - completions)\<rparr>;
          s5 = s4\<lparr>queueLength := max 0 (queueLength s4)\<rparr>;
          s6 = s5\<lparr>cumulativeQueueLength := cumulativeQueueLength s5 + queueLength s5\<rparr>;
          s7 = s6\<lparr>timeSteps := timeSteps s6 + 1\<rparr>
      in s7\<lparr>currentTime := currentTime s7 + timeStep cfg\<rparr>)"

definition step :: "StepDraws \<Rightarrow> QueueSimulation \<Rightarrow> QueueSimulation" where
  "step rnd sim = sim\<lparr>state := stepState (config sim) rnd (state sim)\<rparr>"

text \<open>A sequence of \<open>step()\<close> calls, one element of the list per call.\<close>

fun steps :: "StepDraws list \<Rightarrow> QueueSimulation \<Rightarrow> QueueSimulation" where
  "steps [] sim = sim"
| "steps (rnd # rnds) sim = steps rnds (step rnd sim)"

text \<open>
  The accounting that holds while there is at most one server: every arrival not yet
  served is in the queue, and a server is busy only while the queue is not empty.
\<close>

definition singleServerInv :: "SimulationState \<Rightarrow> bool" where
  "singleServerInv s \<longleftrightarrow>
     0 \<le> queueLength s \<and> 0 \<le> serversBusy s
     \<and> (queueLength s = 0 \<longrightarrow> serversBusy s = 0)
     \<and> totalServed s + queueLength s = totalArrivals s"

subsection \<open>Concrete inputs\<close>

text \<open>The configuration used throughout the engine's tests: two servers, steps of 0.1 s.\<close>

definition testConfig :: SimulationConfig where
  "testConfig =
     \<lparr>arrivalRate = 10, serviceRate = 12, numServers = 2, timeStep = 1 / 10,
      maxCapacity_opt = None\<rparr>"

text \<open>
  With \<open>testConfig\<close> an arrival has probability 1/60 and a completion 1/50 per step.
  In \<open>drawsArrivalOnly\<close> the arrival trial succeeds and every service trial fails;
  in \<open>drawsServiceOnly\<close> it is the other way round; in \<open>drawsNothing\<close> every trial fails.
\<close>

definition drawsArrivalOnly :: StepDraws where
  "drawsArrivalOnly = \<lparr>arrivalDraw = 1 / 100, serviceDraws = (\<lambda>i. 1 / 2)\<rparr>"

definition drawsServiceOnly :: StepDraws where
  "drawsServiceOnly = \<lparr>arrivalDraw = 1 / 2, serviceDraws = (\<lambda>i. 1 / 100)\<rparr>"

definition drawsNothing :: StepDraws where
  "drawsNothing = \<lparr>arrivalDraw = 1 / 2, serviceDraws = (\<lambda>i. 1 / 2)\<rparr>"

text \<open>
  What the application sends when the finite-capacity model is selected with K = 2 and
  one server (the rates of \<open>testConfig\<close>).
\<close>

definition finiteCapacityUpdate :: PartialConfig where
  "finiteCapacityUpdate =
     \<lparr>p_arrivalRate = Some 10, p_serviceRate = Some 12, p_numServers = Some 1,
      p_timeStep = None, p_maxCapacity = Some (Some 2)\<rparr>"


section \<open>Concrete parameter sets\<close>

text \<open>The single-server queue of the model tests: utilization 0.6.\<close>

definition mm1Params :: QueueingParameters where
  "mm1Params = \<lparr>arrivalRate = 6, serviceRate = 10, numServers = 1\<rparr>"

text \<open>Arrivals equal to capacity: utilization exactly 1.\<close>

definition criticalParams :: QueueingParameters where
  "criticalParams = \<lparr>arrivalRate = 10, serviceRate = 10, numServers = 1\<rparr>"

text \<open>The M/M/1/5 queue of the finite-capacity tests.\<close>

definition mm1k5Params :: MMCKQueueingParameters where
  "mm1k5Params = \<lparr>arrivalRate = 6, serviceRate = 10, numServers = 1, maxCapacity = 5\<rparr>"

text \<open>
  One server, a utilization above 1 by \<open>1e-11\<close> (inside the tolerance of the test for
  a utilization of one) and a very large capacity.
\<close>

definition overloadParams :: MMCKQueueingParameters where
  "overloadParams =
     \<lparr>arrivalRate = 1 + 1 / 10 ^ 11, serviceRate = 1, numServers = 1,
      maxCapacity = 1 + 6000000000000\<rparr>"

section \<open>Properties of the analytic models\<close>

subsection \<open>The loops compute the factorial and the partial exponential series\<close>

lemma Math_pow_nonneg: "0 \<le> n \<Longrightarrow> Math_pow x n = x ^ nat n"
  by (simp add: Math_pow_def)

lemma factorialLoop_fact:
  "1 \<le> i \<Longrightarrow> i \<le> n + 1 \<Longrightarrow> factorialLoop n i r * fact (nat (i - 1)) = r * fact (nat n)"
proof (induction n i r rule: factorialLoop.induct)
  case (1 n i r)
  show ?case
  proof (cases "i \<le> n")
    case True
    have step: "factorialLoop n i r = factorialLoop n (i + 1) (r * real_of_int i)"
      using True by (subst factorialLoop.simps) simp
    have ih: "factorialLoop n (i + 1) (r * real_of_int i) * fact (nat i) = r * real_of_int i * fact (nat n)"
      using "1.IH" [OF True] "1.prems" True by simp
    have "nat i = Suc (nat (i - 1))" using "1.prems" by simp
    then have "(fact (nat i) :: real) = real_of_int i * fact (nat (i - 1))"
      using "1.prems" by (simp add: algebra_simps)
    with ih have "real_of_int i * (factorialLoop n (i + 1) (r * real_of_int i) * fact (nat (i - 1)))
        = real_of_int i * (r * fact (nat n))"
      by (simp add: algebra_simps)
    moreover have "real_of_int i \<noteq> 0" using "1.prems" by simp
    ultimately show ?thesis using step by simp
  next
    case False
    with "1.prems" have "i = n + 1" by simp
    then show ?thesis by (subst factorialLoop.simps) simp
  qed
qed

lemma factorial_fact: "factorial n = fact (nat n)"
proof (cases "n \<le> 1")
  case True
  then have "nat n = 0 \<or> nat n = 1" by auto
  then show ?thesis using True by (auto simp: factorial_def)
next
  case False
  then show ?thesis
    using factorialLoop_fact [of 2 n 1] by (simp add: factorial_def)
qed

lemma seriesLoop_sum:
  "0 \<le> k \<Longrightarrow> seriesLoop a c k acc = acc + (\<Sum>j = nat k..<nat c. a ^ j / fact j)"
proof (induction a c k acc rule: seriesLoop.induct)
  case (1 a c k acc)
  show ?case
  proof (cases "k < c")
    case True
    have "seriesLoop a c k acc = seriesLoop a c (k + 1) (acc + Math_pow a k / factorial k)"
      using True by (subst seriesLoop.simps) simp
    also have "\<dots> = acc + Math_pow a k / factorial k + (\<Sum>j = nat (k + 1)..<nat c. a ^ j / fact j)"
      using "1.IH" [OF True] "1.prems" by simp
    also have "Math_pow a k / factorial k = a ^ nat k / fact (nat k)"
      using "1.prems" by (simp add: Math_pow_nonneg factorial_fact)
    also have "nat (k + 1) = Suc (nat k)" using "1.prems" by simp
    also have "acc + a ^ nat k / fact (nat k) + (\<Sum>j = Suc (nat k)..<nat c. a ^ j / fact j)
        = acc + (\<Sum>j = nat k..<nat c. a ^ j / fact j)"
    proof -
      have "nat k < nat c" using True "1.prems" by simp
      then show ?thesis by (simp add: sum.atLeast_Suc_lessThan)
    qed
    finally show ?thesis .
  next
    case False
    then have "nat c \<le> nat k" by simp
    with False show ?thesis by (subst seriesLoop.simps) simp
  qed
qed

lemma seriesLoop_closed: "seriesLoop a c 0 0 = (\<Sum>j<nat c. a ^ j / fact j)"
  using seriesLoop_sum [of 0 a c 0] by (simp add: lessThan_atLeast0)

lemma series_ge_one:
  assumes "0 \<le> a" and "1 \<le> c"
  shows "1 \<le> seriesLoop a c 0 0"
proof -
  have "(\<Sum>j\<in>{0}. a ^ j / fact j) \<le> (\<Sum>j<nat c. a ^ j / fact j)"
    using assms by (intro sum_mono2) auto
  then show ?thesis by (simp add: seriesLoop_closed)
qed

lemma erlangC_unit_interval:
  assumes "0 < a" and "1 \<le> c" and "a < real_of_int c"
  defines "numerator \<equiv> Math_pow a c / factorial c * (real_of_int c / (real_of_int c - a))"
  shows "0 < numerator" and "0 < seriesLoop a c 0 0 + numerator"
proof -
  have "0 < Math_pow a c / factorial c"
    using assms(1,2) by (simp add: Math_pow_nonneg factorial_fact)
  moreover have "0 < real_of_int c / (real_of_int c - a)"
    using assms(1,2,3) by simp
  ultimately show pos: "0 < numerator"
    unfolding numerator_def by (rule mult_pos_pos)
  have "1 \<le> seriesLoop a c 0 0"
    using assms(1,2) by (intro series_ge_one) simp_all
  with pos show "0 < seriesLoop a c 0 0 + numerator" by linarith
qed

subsection \<open>M/M/c\<close>

lemma calculateUtilization_eq:
  "calculateUtilization p = arrivalRate p / (real_of_int (numServers p) * serviceRate p)"
  by (simp add: calculateUtilization_def mult.commute)

lemma mm1_erlangC: "calculateErlangC mm1Params = 3 / 5"
  by code_simp

text \<open>
  Claim C3. For every M/M/c parameter set (positive rates, at least one server) whose
  utilization \<open>\<lambda> / (c \<mu>)\<close> is at least 1, calculateMetrics returns isStable = false,
  the four derived metrics are positive infinity (not NaN, not a finite value), and the
  utilization field is the value \<open>\<lambda> / (c \<mu>)\<close>.
\<close>

theorem C3_unstable_metrics:
  fixes p :: QueueingParameters
  assumes "0 < arrivalRate p" and "0 < serviceRate p" and "1 \<le> numServers p"
    and "1 \<le> arrivalRate p / (real_of_int (numServers p) * serviceRate p)"
  shows "isStable (calculateMetrics p) = False
       \<and> averageQueueLength (calculateMetrics p) = PosInfinity
       \<and> averageSystemLength (calculateMetrics p) = PosInfinity
       \<and> averageWaitTime (calculateMetrics p) = PosInfinity
       \<and> averageSystemTime (calculateMetrics p) = PosInfinity
       \<and> utilization (calculateMetrics p)
           = arrivalRate p / (real_of_int (numServers p) * serviceRate p)"
proof -
  have "calculateUtilization p = arrivalRate p / (real_of_int (numServers p) * serviceRate p)"
    by (simp add: calculateUtilization_def mult.commute)
  with assms(4) have "\<not> isSystemStable p" and
    "calculateUtilization p = arrivalRate p / (real_of_int (numServers p) * serviceRate p)"
    by (simp_all add: isSystemStable_def)
  then show ?thesis by (simp add: calculateMetrics_def Let_def)
qed

theorem C3_unstable_metrics_witness:
  "0 < arrivalRate criticalParams \<and> 0 < serviceRate criticalParams \<and> 1 \<le> numServers criticalParams
   \<and> 1 \<le> arrivalRate criticalParams / (real_of_int (numServers criticalParams) * serviceRate criticalParams)
   \<and> calculateMetrics criticalParams
       = \<lparr>utilization = 1, averageQueueLength = PosInfinity, averageSystemLength = PosInfinity,
          averageWaitTime = PosInfinity, averageSystemTime = PosInfinity, isStable = False\<rparr>"
proof -
  have v: "0 < arrivalRate criticalParams" "0 < serviceRate criticalParams"
    "1 \<le> numServers criticalParams"
    "1 \<le> arrivalRate criticalParams / (real_of_int (numServers criticalParams) * serviceRate criticalParams)"
    by (simp_all add: criticalParams_def)
  have "utilization (calculateMetrics criticalParams) = 1"
    using C3_unstable_metrics [OF v] by (simp add: criticalParams_def)
  then show ?thesis
    using v C3_unstable_metrics [OF v] by (cases "calculateMetrics criticalParams") simp
qed

text \<open>
  Claim C4. For every stable M/M/c parameter set (positive rates, at least one server,
  utilization below 1) the metrics are Lq = ErlangC \<open>\<times>\<close> \<open>\<rho>\<close> / (1 - \<open>\<rho>\<close>), L = Lq + \<open>\<lambda>\<close>/\<open>\<mu>\<close>,
  Wq = Lq / \<open>\<lambda>\<close> and W = L / \<open>\<lambda>\<close>, and so L = \<open>\<lambda>\<close> W and Lq = \<open>\<lambda>\<close> Wq.
\<close>

theorem C4_stable_identities:
  fixes p :: QueueingParameters
  assumes "0 < arrivalRate p" and "0 < serviceRate p" and "1 \<le> numServers p"
    and "arrivalRate p / (real_of_int (numServers p) * serviceRate p) < 1"
  shows "let rho = arrivalRate p / (real_of_int (numServers p) * serviceRate p);
             Lq = calculateErlangC p * rho / (1 - rho);
             L = Lq + arrivalRate p / serviceRate p;
             Wq = Lq / arrivalRate p;
             W = L / arrivalRate p
         in isStable (calculateMetrics p) = True
          \<and> averageQueueLength (calculateMetrics p) = Num Lq
          \<and> averageSystemLength (calculateMetrics p) = Num L
          \<and> averageWaitTime (calculateMetrics p) = Num Wq
          \<and> averageSystemTime (calculateMetrics p) = Num W
          \<and> L = arrivalRate p * W
          \<and> Lq = arrivalRate p * Wq"
proof -
  have u: "calculateUtilization p = arrivalRate p / (real_of_int (numServers p) * serviceRate p)"
    by (simp add: calculateUtilization_def mult.commute)
  have st: "isSystemStable p" using assms(4) by (simp add: isSystemStable_def u)
  have lam: "arrivalRate p \<noteq> 0" using assms(1) by simp
  have lq: "calculateAverageQueueLength p
      = Num (calculateErlangC p * calculateUtilization p / (1 - calculateUtilization p))"
    using st by (simp add: calculateAverageQueueLength_def Let_def)
  have l: "calculateAverageSystemLength p
      = Num (calculateErlangC p * calculateUtilization p / (1 - calculateUtilization p)
              + arrivalRate p / serviceRate p)"
    using st by (simp add: calculateAverageSystemLength_def Let_def lq)
  have wq: "calculateAverageWaitTime p
      = Num (calculateErlangC p * calculateUtilization p / (1 - calculateUtilization p) / arrivalRate p)"
    using st lam by (simp add: calculateAverageWaitTime_def Let_def lq js_div_def)
  have w: "calculateAverageSystemTime p
      = Num ((calculateErlangC p * calculateUtilization p / (1 - calculateUtilization p)
              + arrivalRate p / serviceRate p) / arrivalRate p)"
    using st lam by (simp add: calculateAverageSystemTime_def Let_def l js_div_def)
  show ?thesis
    using st lam by (simp add: Let_def calculateMetrics_def lq l wq w u [symmetric])
qed

theorem C4_stable_identities_witness:
  "0 < arrivalRate mm1Params \<and> 0 < serviceRate mm1Params \<and> 1 \<le> numServers mm1Params
   \<and> arrivalRate mm1Params / (real_of_int (numServers mm1Params) * serviceRate mm1Params) < 1
   \<and> calculateMetrics mm1Params
       = \<lparr>utilization = 3 / 5, averageQueueLength = Num (9 / 10), averageSystemLength = Num (3 / 2),
          averageWaitTime = Num (3 / 20), averageSystemTime = Num (1 / 4), isStable = True\<rparr>"
proof -
  have v: "0 < arrivalRate mm1Params" "0 < serviceRate mm1Params"
    "1 \<le> numServers mm1Params"
    "arrivalRate mm1Params / (real_of_int (numServers mm1Params) * serviceRate mm1Params) < 1"
    by (simp_all add: mm1Params_def)
  have u: "utilization (calculateMetrics mm1Params) = 3 / 5"
    by (simp add: calculateMetrics_def Let_def calculateUtilization_def mm1Params_def)
  have r: "arrivalRate mm1Params = 6" "serviceRate mm1Params = 10" "numServers mm1Params = 1"
    by (simp_all add: mm1Params_def)
  show ?thesis
    using v u C4_stable_identities [OF v, unfolded Let_def mm1_erlangC r]
    by (cases "calculateMetrics mm1Params") simp
qed

text \<open>
  Claim C6. For every M/M/c parameter set (positive rates, at least one server),
  calculateErlangC lies in the interval from 0 to 1 when the offered load \<open>\<lambda>\<close>/\<open>\<mu>\<close> is below
  the number of servers, and is exactly 1 when the offered load is at least the number
  of servers.
\<close>

theorem C6_erlangC_range:
  fixes p :: QueueingParameters
  assumes "0 < arrivalRate p" and "0 < serviceRate p" and "1 \<le> numServers p"
  shows "(arrivalRate p / serviceRate p < real_of_int (numServers p)
            \<longrightarrow> 0 \<le> calculateErlangC p \<and> calculateErlangC p \<le> 1)
       \<and> (real_of_int (numServers p) \<le> arrivalRate p / serviceRate p
            \<longrightarrow> calculateErlangC p = 1)"
proof (intro conjI impI)
  assume stable: "arrivalRate p / serviceRate p < real_of_int (numServers p)"
  define a where "a = arrivalRate p / serviceRate p"
  define c where "c = numServers p"
  define numerator where
    "numerator = Math_pow a c / factorial c * (real_of_int c / (real_of_int c - a))"
  have a: "0 < a" using assms by (simp add: a_def)
  have lt: "a < real_of_int c" using stable by (simp add: a_def c_def)
  have c: "1 \<le> c" using assms by (simp add: c_def)
  have n: "0 < numerator" and d: "0 < seriesLoop a c 0 0 + numerator"
    using erlangC_unit_interval [OF a c lt] by (simp_all add: numerator_def)
  have s: "0 \<le> seriesLoop a c 0 0"
    using series_ge_one [of a c] a c by simp
  have val: "calculateErlangC p = numerator / (seriesLoop a c 0 0 + numerator)"
    using lt by (simp add: calculateErlangC_def Let_def a_def c_def numerator_def)
  show "0 \<le> calculateErlangC p" using n d by (simp add: val)
  show "calculateErlangC p \<le> 1" using n d s by (simp add: val)
next
  assume "real_of_int (numServers p) \<le> arrivalRate p / serviceRate p"
  then show "calculateErlangC p = 1" by (simp add: calculateErlangC_def Let_def)
qed

theorem C6_erlangC_range_witness:
  "arrivalRate mm1Params / serviceRate mm1Params < real_of_int (numServers mm1Params)
   \<and> 0 \<le> calculateErlangC mm1Params \<and> calculateErlangC mm1Params \<le> 1
   \<and> real_of_int (numServers criticalParams) \<le> arrivalRate criticalParams / serviceRate criticalParams
   \<and> calculateErlangC criticalParams = 1"
proof -
  have v: "0 < arrivalRate mm1Params" "0 < serviceRate mm1Params" "1 \<le> numServers mm1Params"
    by (simp_all add: mm1Params_def)
  have w: "0 < arrivalRate criticalParams" "0 < serviceRate criticalParams"
    "1 \<le> numServers criticalParams"
    by (simp_all add: criticalParams_def)
  have s: "arrivalRate mm1Params / serviceRate mm1Params < real_of_int (numServers mm1Params)"
    by (simp add: mm1Params_def)
  have u: "real_of_int (numServers criticalParams) \<le> arrivalRate criticalParams / serviceRate criticalParams"
    by (simp add: criticalParams_def)
  show ?thesis
    using s u C6_erlangC_range [OF v] C6_erlangC_range [OF w] by blast
qed

subsection \<open>M/M/c/K\<close>

lemma mm1k5_rejection: "calculateRejectionProbability mm1k5Params = 243 / 7448"
  by code_simp

text \<open>
  The sum that \<open>calculateP0\<close> inverts is positive, so P0 is a positive finite value.
\<close>

lemma geometric_quotient_nonneg:
  fixes r :: real
  assumes "0 < r" and "r \<noteq> 1"
  shows "0 \<le> (1 - r ^ m) / (1 - r)"
proof (cases "r < 1")
  case True
  then have "r ^ m \<le> 1" using assms(1) by (intro power_le_one) simp_all
  with True show ?thesis by simp
next
  case False
  with assms(2) have "1 < r" by simp
  then have "1 \<le> r ^ m" by (intro one_le_power) simp
  with \<open>1 < r\<close> show ?thesis by (simp add: divide_nonpos_neg)
qed

lemma calculateP0_pos:
  fixes p :: MMCKQueueingParameters
  assumes "0 < arrivalRate p" and "0 < serviceRate p" and "1 \<le> numServers p"
    and "numServers p \<le> maxCapacity p"
  shows "0 < calculateP0 p"
proof -
  define a where "a = arrivalRate p / serviceRate p"
  define rho where "rho = arrivalRate p / (real_of_int (numServers p) * serviceRate p)"
  define c where "c = numServers p"
  define m where "m = maxCapacity p - c + 1"
  define acf where "acf = Math_pow a c / factorial c"
  define sum2 where "sum2 = (if \<bar>rho - 1\<bar> < rhoTolerance then acf * real_of_int m
                             else acf * (1 - Math_pow rho m) / (1 - rho))"
  have a: "0 < a" using assms by (simp add: a_def)
  have rho: "0 < rho" using assms by (simp add: rho_def)
  have c: "1 \<le> c" using assms by (simp add: c_def)
  have m: "1 \<le> m" using assms by (simp add: m_def c_def)
  have acf: "0 < acf" using a c by (simp add: acf_def Math_pow_nonneg factorial_fact)
  have s1: "1 \<le> seriesLoop a c 0 0" using a c by (intro series_ge_one) simp_all
  have s2: "0 \<le> sum2"
  proof (cases "\<bar>rho - 1\<bar> < rhoTolerance")
    case True
    then show ?thesis using acf m by (simp add: sum2_def)
  next
    case False
    then have "rho \<noteq> 1" by (auto simp: rhoTolerance_def)
    then have "0 \<le> (1 - rho ^ nat m) / (1 - rho)"
      using rho by (intro geometric_quotient_nonneg)
    then have "0 \<le> acf * ((1 - rho ^ nat m) / (1 - rho))"
      using acf by (intro mult_nonneg_nonneg) simp_all
    then show ?thesis using False m by (simp add: sum2_def Math_pow_nonneg)
  qed
  have "calculateP0 p = 1 / (seriesLoop a c 0 0 + sum2)"
    by (simp add: calculateP0_def Let_def a_def rho_def c_def m_def acf_def sum2_def)
  then show ?thesis using s1 s2 by simp
qed

text \<open>
  Claim C5. For every M/M/c/K parameter set (positive rates, c at least 1, K at least c),
  calculateP0 is 1 / (sum1 + sum2), where sum1 is the sum of a^k / k! for k from 0 to
  c - 1, and sum2 is (a^c / c!) (K - c + 1) when the utilization is within 1e-10 of 1
  and (a^c / c!) (1 - \<open>\<rho>\<close>^(K - c + 1)) / (1 - \<open>\<rho>\<close>) otherwise; calculateRejectionProbability is
  P0 a^K / K! when K is at most c and P0 (a^c / c!) \<open>\<rho>\<close>^(K - c) when K is above c.
\<close>

theorem C5_P0_and_rejection:
  fixes p :: MMCKQueueingParameters
  assumes "0 < arrivalRate p" and "0 < serviceRate p" and "1 \<le> numServers p"
    and "numServers p \<le> maxCapacity p"
  shows "let a = arrivalRate p / serviceRate p;
             rho = arrivalRate p / (real_of_int (numServers p) * serviceRate p);
             c = nat (numServers p);
             K = nat (maxCapacity p);
             sum1 = (\<Sum>k = 0..c - 1. a ^ k / fact k);
             sum2 = (if \<bar>rho - 1\<bar> < 1 / 10 ^ 10
                     then (a ^ c / fact c) * real (K - c + 1)
                     else (a ^ c / fact c) * (1 - rho ^ (K - c + 1)) / (1 - rho));
             P0 = 1 / (sum1 + sum2)
         in calculateP0 p = P0
          \<and> calculateRejectionProbability p
              = (if K \<le> c then P0 * a ^ K / fact K
                 else P0 * (a ^ c / fact c) * rho ^ (K - c))"
proof -
  define c where "c = nat (numServers p)"
  define K where "K = nat (maxCapacity p)"
  have c: "numServers p = int c" and K: "maxCapacity p = int K"
    using assms by (simp_all add: c_def K_def)
  have cK: "c \<le> K" and c1: "1 \<le> c" using assms by (simp_all add: c_def K_def)
  have d1: "nat (int K - int c + 1) = K - c + 1" using cK by simp
  have d0: "nat (int K - int c) = K - c" using cK by simp
  have r1: "real_of_int (int K - int c + 1) = real (K - c + 1)" using cK by simp
  have s: "{..<c} = {0..c - 1}" using c1 by auto
  have P0: "calculateP0 p =
      1 / ((\<Sum>k = 0..c - 1. (arrivalRate p / serviceRate p) ^ k / fact k)
           + (if \<bar>arrivalRate p / (real c * serviceRate p) - 1\<bar> < 1 / 10 ^ 10
              then ((arrivalRate p / serviceRate p) ^ c / fact c) * real (K - c + 1)
              else ((arrivalRate p / serviceRate p) ^ c / fact c)
                     * (1 - (arrivalRate p / (real c * serviceRate p)) ^ (K - c + 1))
                     / (1 - arrivalRate p / (real c * serviceRate p))))"
    unfolding calculateP0_def Let_def seriesLoop_closed factorial_fact rhoTolerance_def c K
    using cK by (simp only: Math_pow_def nat_int d1 r1 s of_int_of_nat_eq) simp
  have Pb: "calculateRejectionProbability p =
      (if K \<le> c then calculateP0 p * (arrivalRate p / serviceRate p) ^ K / fact K
       else calculateP0 p * ((arrivalRate p / serviceRate p) ^ c / fact c)
              * (arrivalRate p / (real c * serviceRate p)) ^ (K - c))"
    unfolding calculateRejectionProbability_def Let_def factorial_fact c K
    using cK by (simp add: Math_pow_def d0)
  show ?thesis
    unfolding Let_def c_def [symmetric] K_def [symmetric] Pb P0 by (simp add: c)
qed

theorem C5_P0_and_rejection_witness:
  "0 < arrivalRate mm1k5Params \<and> 0 < serviceRate mm1k5Params
   \<and> 1 \<le> numServers mm1k5Params \<and> numServers mm1k5Params \<le> maxCapacity mm1k5Params
   \<and> calculateP0 mm1k5Params = 3125 / 7448
   \<and> calculateRejectionProbability mm1k5Params = 243 / 7448"
proof -
  have v: "0 < arrivalRate mm1k5Params" "0 < serviceRate mm1k5Params"
    "1 \<le> numServers mm1k5Params" "numServers mm1k5Params \<le> maxCapacity mm1k5Params"
    by (simp_all add: mm1k5Params_def)
  have r: "arrivalRate mm1k5Params = 6" "serviceRate mm1k5Params = 10"
    "numServers mm1k5Params = 1" "maxCapacity mm1k5Params = 5"
    by (simp_all add: mm1k5Params_def)
  show ?thesis
    using v C5_P0_and_rejection [OF v, unfolded Let_def r]
    by (simp add: power_divide)
qed

text \<open>
  In the branch for a utilization of one, the state probabilities are not normalised
  when the utilization is only close to 1: with \<open>overloadParams\<close> the rejection
  probability exceeds 1 and the effective arrival rate is negative.
\<close>

lemma power_in_blocks:
  fixes x :: real
  assumes "0 \<le> x" and "1 \<le> real m * x"
  shows "2 ^ j \<le> (1 + x) ^ (m * j)"
proof -
  have "2 \<le> 1 + real m * x" using assms(2) by simp
  also have "\<dots> \<le> (1 + x) ^ m"
    using assms(1) by (intro Bernoulli_inequality) simp
  finally have "2 ^ j \<le> ((1 + x) ^ m) ^ j"
    by (intro power_mono) simp_all
  then show ?thesis by (simp add: power_mult)
qed

lemma above_linear:
  fixes y P :: real
  assumes "B \<le> P" and "1 \<le> y" and "0 \<le> B" and "1 + y * k < B"
  shows "1 + y * k < y * P"
proof -
  have "B * 1 \<le> P * y" using assms(1,2,3) by (intro mult_mono) simp_all
  with assms(4) show ?thesis by (simp add: mult.commute)
qed

lemma rejection_above_one:
  fixes p :: MMCKQueueingParameters and x :: real and n :: int
  assumes "arrivalRate p = 1 + x" and "serviceRate p = 1" and "numServers p = 1"
    and "maxCapacity p = 1 + n"
    and "0 < x" and "x < rhoTolerance" and "1 \<le> n"
    and big: "1 + (1 + x) * real_of_int (n + 1) < (1 + x) * (1 + x) ^ nat n"
  shows "1 < calculateRejectionProbability p"
proof -
  define P where "P = (1 + x) ^ nat n"
  have s1: "seriesLoop (1 + x) 1 0 0 = 1" by (simp add: seriesLoop_closed)
  have f1: "factorial 1 = 1" by (simp add: factorial_def)
  have den: "0 < 1 + (1 + x) * real_of_int (n + 1)"
    using assms(5,7) by (intro add_pos_pos mult_pos_pos) simp_all
  have p0: "calculateP0 p = 1 / (1 + (1 + x) * real_of_int (n + 1))"
    using assms(1-7) by (simp add: calculateP0_def Let_def s1 f1 Math_pow_def)
  have "calculateRejectionProbability p
      = 1 / (1 + (1 + x) * real_of_int (n + 1)) * (1 + x) * Math_pow (1 + x) n"
    using assms(1-7) by (simp add: calculateRejectionProbability_def Let_def p0 f1 Math_pow_def)
  also have "Math_pow (1 + x) n = P" using assms(7) by (simp add: Math_pow_def P_def)
  finally have "calculateRejectionProbability p = ((1 + x) * P) / (1 + (1 + x) * real_of_int (n + 1))"
    by simp
  moreover have "1 + (1 + x) * real_of_int (n + 1) < (1 + x) * P"
    using big by (simp add: P_def)
  ultimately show ?thesis using den by simp
qed

lemma overload_rejection: "1 < calculateRejectionProbability overloadParams"
proof (rule rejection_above_one [where x = "1 / 10 ^ 11" and n = 6000000000000])
  show "arrivalRate overloadParams = 1 + 1 / 10 ^ 11" by (simp add: overloadParams_def)
  show "serviceRate overloadParams = 1" by (simp add: overloadParams_def)
  show "numServers overloadParams = 1" by (simp add: overloadParams_def)
  show "maxCapacity overloadParams = 1 + 6000000000000" by (simp add: overloadParams_def)
  show "(0::real) < 1 / 10 ^ 11" by simp
  show "1 / 10 ^ 11 < rhoTolerance" by (simp add: rhoTolerance_def)
  show "(1::int) \<le> 6000000000000" by simp
  have e: "nat 6000000000000 = 100000000000 * 60" by simp
  have "(2::real) ^ 60 \<le> (1 + 1 / 10 ^ 11) ^ (100000000000 * 60)"
    by (rule power_in_blocks) simp_all
  then have pw: "(2::real) ^ 60 \<le> (1 + 1 / 10 ^ 11) ^ nat 6000000000000"
    unfolding e .
  show "1 + (1 + 1 / 10 ^ 11) * real_of_int (6000000000000 + 1)
        < (1 + 1 / 10 ^ 11) * (1 + 1 / 10 ^ 11) ^ nat 6000000000000"
    by (rule above_linear [OF pw]) simp_all
qed

lemma overloadParams_valid:
  "0 < arrivalRate overloadParams" "0 < serviceRate overloadParams"
  "1 \<le> numServers overloadParams" "numServers overloadParams \<le> maxCapacity overloadParams"
  by (simp_all add: overloadParams_def)

lemma overload_lambdaEff:
  "arrivalRate overloadParams * (1 - calculateRejectionProbability overloadParams) < 0"
  using overload_rejection overloadParams_valid(1) by (simp add: mult_less_0_iff)

text \<open>
  When the utilization is at most 1, or outside the tolerance around 1, the rejection
  probability is a probability.
\<close>

lemma geometric_tail_le:
  fixes r :: real
  assumes "0 < r" and "r \<noteq> 1"
  shows "r ^ n \<le> (1 - r ^ (n + 1)) / (1 - r)"
proof -
  have "(1 - r ^ (n + 1)) / (1 - r) = (r ^ (n + 1) - 1) / (r - 1)"
    by (metis minus_diff_eq minus_divide_divide)
  also have "\<dots> = (\<Sum>i<n + 1. r ^ i)"
    by (rule geometric_sum [OF assms(2), symmetric])
  also have "\<dots> = (\<Sum>i<n. r ^ i) + r ^ n" by simp
  finally have "(1 - r ^ (n + 1)) / (1 - r) = (\<Sum>i<n. r ^ i) + r ^ n" .
  moreover have "0 \<le> (\<Sum>i<n. r ^ i)" using assms(1) by (intro sum_nonneg) simp
  ultimately show ?thesis by simp
qed

lemma rejection_le_one:
  fixes p :: MMCKQueueingParameters
  assumes "0 < arrivalRate p" and "0 < serviceRate p" and "1 \<le> numServers p"
    and "numServers p \<le> maxCapacity p"
    and off: "arrivalRate p / (real_of_int (numServers p) * serviceRate p) \<le> 1
              \<or> \<not> \<bar>arrivalRate p / (real_of_int (numServers p) * serviceRate p) - 1\<bar> < rhoTolerance"
  shows "0 < calculateRejectionProbability p \<and> calculateRejectionProbability p \<le> 1"
proof -
  define a where "a = arrivalRate p / serviceRate p"
  define rho where "rho = arrivalRate p / (real_of_int (numServers p) * serviceRate p)"
  define c where "c = numServers p"
  define n where "n = nat (maxCapacity p - c)"
  define acf where "acf = Math_pow a c / factorial c"
  define sum2 where "sum2 = (if \<bar>rho - 1\<bar> < rhoTolerance then acf * real (n + 1)
                             else acf * (1 - rho ^ (n + 1)) / (1 - rho))"
  define s1 where "s1 = seriesLoop a c 0 0"
  have a: "0 < a" using assms by (simp add: a_def)
  have rho: "0 < rho" using assms by (simp add: rho_def)
  have c: "1 \<le> c" using assms by (simp add: c_def)
  have kc: "maxCapacity p - c = int n" using assms by (simp add: n_def c_def)
  have e1: "nat (int n + 1) = Suc n" by simp
  have acf: "0 < acf" using a c by (simp add: acf_def Math_pow_nonneg factorial_fact)
  have s1: "1 \<le> s1" unfolding s1_def using a c by (intro series_ge_one) simp_all
  have p0: "calculateP0 p = 1 / (s1 + sum2)"
    unfolding calculateP0_def Let_def a_def [symmetric] rho_def [symmetric]
    unfolding c_def [symmetric]
    unfolding acf_def [symmetric] s1_def [symmetric] kc
    by (simp add: sum2_def Math_pow_def e1)
  have pb: "calculateRejectionProbability p = acf * rho ^ n / (s1 + sum2)"
  proof (cases "n = 0")
    case True
    with kc have "maxCapacity p = c" by simp
    then show ?thesis
      unfolding calculateRejectionProbability_def Let_def p0 a_def [symmetric] rho_def [symmetric]
      unfolding c_def [symmetric]
      using True by (simp add: acf_def)
  next
    case False
    with kc have "\<not> maxCapacity p \<le> c" by simp
    then show ?thesis
      unfolding calculateRejectionProbability_def Let_def p0 a_def [symmetric] rho_def [symmetric]
      unfolding c_def [symmetric]
      unfolding acf_def [symmetric] kc
      by (simp add: Math_pow_def)
  qed
  have tail: "acf * rho ^ n \<le> sum2"
  proof (cases "\<bar>rho - 1\<bar> < rhoTolerance")
    case True
    with off have "rho \<le> 1" by (simp add: rho_def)
    then have "rho ^ n \<le> 1" using rho by (intro power_le_one) simp_all
    then have "rho ^ n \<le> real (n + 1)" by simp
    then have "acf * rho ^ n \<le> acf * real (n + 1)"
      using acf by (intro mult_left_mono) simp_all
    with True show ?thesis by (simp add: sum2_def)
  next
    case False
    then have "rho \<noteq> 1" by (auto simp: rhoTolerance_def)
    then have "rho ^ n \<le> (1 - rho ^ (n + 1)) / (1 - rho)"
      using rho by (intro geometric_tail_le)
    then have "acf * rho ^ n \<le> acf * ((1 - rho ^ (n + 1)) / (1 - rho))"
      using acf by (intro mult_left_mono) simp_all
    with False show ?thesis by (simp add: sum2_def)
  qed
  have num: "0 < acf * rho ^ n" using acf rho by simp
  have den: "acf * rho ^ n < s1 + sum2" using tail s1 by linarith
  show ?thesis unfolding pb using num den by simp
qed

text \<open>
  Whenever the rejection probability is at most 1, the metrics are the ones of the
  finite-capacity model: L = Lq + \<open>\<lambda>\<close>_eff / \<open>\<mu>\<close>, Wq = Lq / \<open>\<lambda>\<close>_eff and W = L / \<open>\<lambda>\<close>_eff, with
  Wq = W = 0 when \<open>\<lambda>\<close>_eff = 0.
\<close>

lemma finite_metrics_when_rejection_le_one:
  fixes p :: MMCKQueueingParameters
  assumes "0 < arrivalRate p" and "calculateRejectionProbability p \<le> 1"
  shows "let Pb = calculateRejectionProbability p;
             lambdaEff = arrivalRate p * (1 - Pb);
             Lq = calculateAverageQueueLength_K p;
             L = Lq + lambdaEff / serviceRate p;
             m = calculateMetrics_K p
         in isStable m = True
          \<and> rejectionProbability m = Pb
          \<and> averageQueueLength m = Num Lq
          \<and> averageSystemLength m = Num L
          \<and> (lambdaEff \<noteq> 0 \<longrightarrow> averageWaitTime m = Num (Lq / lambdaEff)
                                 \<and> averageSystemTime m = Num (L / lambdaEff))
          \<and> (lambdaEff = 0 \<longrightarrow> averageWaitTime m = Num 0 \<and> averageSystemTime m = Num 0)"
proof -
  have "0 \<le> arrivalRate p * (1 - calculateRejectionProbability p)"
    using assms by simp
  then show ?thesis
    by (auto simp: calculateMetrics_K_def Let_def)
qed

text \<open>
  Claim C7. For every M/M/c/K parameter set, calculateMetrics returns isStable = true,
  computes \<open>\<lambda>\<close>_eff = \<open>\<lambda>\<close> (1 - Pb) and sets L = Lq + \<open>\<lambda>\<close>_eff / \<open>\<mu>\<close>, Wq = Lq / \<open>\<lambda>\<close>_eff and
  W = L / \<open>\<lambda>\<close>_eff, with Wq and W equal to 0 when \<open>\<lambda>\<close>_eff = 0. The code breaks this with
  \<open>overloadParams\<close>: calculateP0 takes the branch for a utilization of one while
  calculateRejectionProbability keeps the power of the utilization, the rejection
  probability exceeds 1, \<open>\<lambda>\<close>_eff is negative, and the guard \<open>lambdaEff > 0\<close> gives
  L = Lq and Wq = W = 0.
\<close>

theorem C7_overload_drops_service_term:
  "0 < arrivalRate overloadParams \<and> 0 < serviceRate overloadParams
   \<and> 1 \<le> numServers overloadParams \<and> numServers overloadParams \<le> maxCapacity overloadParams
   \<and> 1 < rejectionProbability (calculateMetrics_K overloadParams)
   \<and> arrivalRate overloadParams * (1 - calculateRejectionProbability overloadParams) < 0
   \<and> averageSystemLength (calculateMetrics_K overloadParams)
       = Num (calculateAverageQueueLength_K overloadParams)
   \<and> averageSystemLength (calculateMetrics_K overloadParams)
       \<noteq> Num (calculateAverageQueueLength_K overloadParams
               + arrivalRate overloadParams * (1 - calculateRejectionProbability overloadParams)
                 / serviceRate overloadParams)
   \<and> averageWaitTime (calculateMetrics_K overloadParams) = Num 0
   \<and> averageSystemTime (calculateMetrics_K overloadParams) = Num 0"
proof -
  have "serviceRate overloadParams = 1" by (simp add: overloadParams_def)
  then show ?thesis
    using overload_rejection overload_lambdaEff overloadParams_valid
    by (simp add: calculateMetrics_K_def Let_def)
qed

section \<open>Properties of the simulation engine\<close>

lemma completionsLoop_lower:
  "completions \<le> completionsLoop prob draws busy i completions"
proof (induction prob draws busy i completions rule: completionsLoop.induct)
  case (1 prob draws busy i completions)
  show ?case
  proof (cases "i < busy")
    case True
    with 1 show ?thesis
      by (subst completionsLoop.simps) (auto split: if_splits intro: order_trans)
  next
    case False
    then show ?thesis by (subst completionsLoop.simps) simp
  qed
qed

lemma completionsLoop_upper:
  "completionsLoop prob draws busy i completions \<le> completions + max 0 (busy - i)"
proof (induction prob draws busy i completions rule: completionsLoop.induct)
  case (1 prob draws busy i completions)
  show ?case
  proof (cases "i < busy")
    case True
    with 1 show ?thesis
      by (subst completionsLoop.simps) (auto split: if_splits)
  next
    case False
    then show ?thesis by (subst completionsLoop.simps) simp
  qed
qed

lemma completionsLoop_nonneg [simp]: "0 \<le> completionsLoop prob draws busy 0 0"
  by (rule completionsLoop_lower)

lemma busy_after_le: "0 \<le> k \<Longrightarrow> min x c - k \<le> (c::int)"
  by simp

lemma stepState_bounds:
  assumes "0 \<le> numServers cfg"
  shows "0 \<le> queueLength (stepState cfg rnd s) \<and> 0 \<le> serversBusy (stepState cfg rnd s)
         \<and> serversBusy (stepState cfg rnd s) \<le> numServers cfg"
  using assms by (simp add: stepState_def Let_def busy_after_le)

lemma config_step [simp]: "config (step rnd sim) = config sim"
  by (simp add: step_def)

lemma config_steps [simp]: "config (steps rnds sim) = config sim"
  by (induction rnds arbitrary: sim) simp_all

lemma steps_bounds:
  assumes "0 \<le> numServers (config sim)"
    and "0 \<le> queueLength (state sim)"
    and "0 \<le> serversBusy (state sim)"
    and "serversBusy (state sim) \<le> numServers (config sim)"
  shows "0 \<le> queueLength (state (steps rnds sim)) \<and> 0 \<le> serversBusy (state (steps rnds sim))
         \<and> serversBusy (state (steps rnds sim)) \<le> numServers (config sim)"
  using assms
proof (induction rnds arbitrary: sim)
  case Nil
  then show ?case by simp
next
  case (Cons rnd rnds)
  have "0 \<le> queueLength (state (step rnd sim)) \<and> 0 \<le> serversBusy (state (step rnd sim))
        \<and> serversBusy (state (step rnd sim)) \<le> numServers (config (step rnd sim))"
    using stepState_bounds [OF Cons.prems(1)] by (simp add: step_def)
  with Cons.IH [of "step rnd sim"] Cons.prems(1) show ?case by simp
qed

text \<open>The step never reads \<open>maxCapacity\<close>.\<close>

lemma stepState_ignores_maxCapacity:
  "stepState (cfg\<lparr>maxCapacity_opt := m\<rparr>) rnd s = stepState cfg rnd s"
  by (simp add: stepState_def)

text \<open>With at most one server, totalServed never exceeds totalArrivals.\<close>

lemma stepState_singleServerInv:
  assumes "numServers cfg \<le> 1" and "singleServerInv s"
  shows "singleServerInv (stepState cfg rnd s)"
proof -
  define a where "a = (if arrivalDraw rnd < arrivalRate cfg / 60 * timeStep cfg then 1 else 0 :: int)"
  define b where "b = min (queueLength s + a + serversBusy s) (numServers cfg)"
  define k where "k = completionsLoop (serviceRate cfg / 60 * timeStep cfg) (serviceDraws rnd) b 0 0"
  have k0: "0 \<le> k" unfolding k_def by (rule completionsLoop_lower)
  have kb: "k \<le> max 0 b"
    unfolding k_def using completionsLoop_upper [of _ _ b 0 0] by simp
  have a01: "0 \<le> a" "a \<le> 1" by (simp_all add: a_def)
  have q: "queueLength (stepState cfg rnd s) = max 0 (queueLength s + a - min (queueLength s + a) k)"
    by (simp add: stepState_def Let_def a_def b_def k_def)
  have sb: "serversBusy (stepState cfg rnd s) = max 0 (b - k)"
    by (simp add: stepState_def Let_def a_def b_def k_def)
  have ts: "totalServed (stepState cfg rnd s) = totalServed s + k"
    by (simp add: stepState_def Let_def a_def b_def k_def)
  have ta: "totalArrivals (stepState cfg rnd s) = totalArrivals s + a"
    by (simp add: stepState_def Let_def a_def b_def k_def)
  have b1: "b \<le> 1" using assms(1) by (simp add: b_def)
  have bq: "b \<le> queueLength s + a + serversBusy s" by (simp add: b_def)
  show ?thesis
    using assms(2) k0 kb a01 b1 bq
    unfolding singleServerInv_def q sb ts ta
    by (auto simp: min_def max_def split: if_splits)
qed

lemma steps_singleServerInv:
  assumes "numServers (config sim) \<le> 1" and "singleServerInv (state sim)"
  shows "singleServerInv (state (steps rnds sim))"
  using assms
proof (induction rnds arbitrary: sim)
  case Nil
  then show ?case by simp
next
  case (Cons rnd rnds)
  have "singleServerInv (state (step rnd sim))"
    using stepState_singleServerInv [OF Cons.prems] by (simp add: step_def)
  with Cons.IH [of "step rnd sim"] Cons.prems(1) show ?case by simp
qed

lemma single_server_served_le_arrivals:
  assumes "numServers cfg \<le> 1"
  shows "totalServed (state (steps rnds (newQueueSimulation cfg)))
         \<le> totalArrivals (state (steps rnds (newQueueSimulation cfg)))"
proof -
  have "singleServerInv (state (newQueueSimulation cfg))"
    by (simp add: singleServerInv_def newQueueSimulation_def getInitialState_def)
  then have "singleServerInv (state (steps rnds (newQueueSimulation cfg)))"
    using assms by (intro steps_singleServerInv) (simp_all add: newQueueSimulation_def)
  then show ?thesis by (simp add: singleServerInv_def)
qed

text \<open>
  Claim C1. After every sequence of steps from the initial state, totalServed is at most
  totalArrivals. The engine breaks this with two servers: the step in which a customer
  arrives and is not served leaves it counted both in queueLength and in serversBusy, so
  the next step runs two service trials for one customer, and both may succeed.
  Here, with the two servers of \<open>testConfig\<close>, one arrival is followed by two completions.
\<close>

theorem C1_served_exceeds_arrivals:
  "totalArrivals (state (steps [drawsArrivalOnly, drawsServiceOnly] (newQueueSimulation testConfig))) = 1
   \<and> totalServed (state (steps [drawsArrivalOnly, drawsServiceOnly] (newQueueSimulation testConfig))) = 2"
  by code_simp

text \<open>
  Claim C2. With maxCapacity configured, an arrival that would take
  queueLength + serversBusy above it is rejected and not counted. The engine admits it:
  with K = 2 stored in the configuration and queueLength + serversBusy = 2, the next
  arrival is counted and the sum becomes 3; after a third arrival three customers have
  arrived, none has been served, and all three are in the queue.
\<close>

theorem C2_arrival_admitted_above_capacity:
  "maxCapacity_opt (config (step drawsArrivalOnly (updateConfig finiteCapacityUpdate (newQueueSimulation testConfig)))) = Some 2
   \<and> queueLength (state (step drawsArrivalOnly (updateConfig finiteCapacityUpdate (newQueueSimulation testConfig))))
     + serversBusy (state (step drawsArrivalOnly (updateConfig finiteCapacityUpdate (newQueueSimulation testConfig)))) = 2
   \<and> totalArrivals (state (step drawsArrivalOnly (updateConfig finiteCapacityUpdate (newQueueSimulation testConfig)))) = 1
   \<and> queueLength (state (steps [drawsArrivalOnly, drawsArrivalOnly] (updateConfig finiteCapacityUpdate (newQueueSimulation testConfig))))
     + serversBusy (state (steps [drawsArrivalOnly, drawsArrivalOnly] (updateConfig finiteCapacityUpdate (newQueueSimulation testConfig)))) = 3
   \<and> totalArrivals (state (steps [drawsArrivalOnly, drawsArrivalOnly] (updateConfig finiteCapacityUpdate (newQueueSimulation testConfig)))) = 2
   \<and> totalArrivals (state (steps [drawsArrivalOnly, drawsArrivalOnly, drawsArrivalOnly] (updateConfig finiteCapacityUpdate (newQueueSimulation testConfig)))) = 3
   \<and> totalServed (state (steps [drawsArrivalOnly, drawsArrivalOnly, drawsArrivalOnly] (updateConfig finiteCapacityUpdate (newQueueSimulation testConfig)))) = 0
   \<and> queueLength (state (steps [drawsArrivalOnly, drawsArrivalOnly, drawsArrivalOnly] (updateConfig finiteCapacityUpdate (newQueueSimulation testConfig)))) = 3"
  by code_simp

text \<open>
  Claim C8. For every configuration with a non-negative number of servers and every
  sequence of steps from the initial state, whatever the random draws, queueLength is
  not negative and serversBusy lies between 0 and numServers.
\<close>

theorem C8_queue_and_servers_bounded:
  assumes "0 \<le> numServers cfg"
  shows "0 \<le> queueLength (state (steps rnds (newQueueSimulation cfg)))
         \<and> 0 \<le> serversBusy (state (steps rnds (newQueueSimulation cfg)))
         \<and> serversBusy (state (steps rnds (newQueueSimulation cfg))) \<le> numServers cfg"
  using steps_bounds [of "newQueueSimulation cfg" rnds] assms
  by (simp add: newQueueSimulation_def getInitialState_def)

theorem C8_queue_and_servers_bounded_witness:
  "0 \<le> numServers testConfig
   \<and> 0 \<le> queueLength (state (steps [drawsArrivalOnly, drawsServiceOnly] (newQueueSimulation testConfig)))
   \<and> 0 \<le> serversBusy (state (steps [drawsArrivalOnly, drawsServiceOnly] (newQueueSimulation testConfig)))
   \<and> serversBusy (state (steps [drawsArrivalOnly, drawsServiceOnly] (newQueueSimulation testConfig)))
       \<le> numServers testConfig"
proof -
  have h: "0 \<le> numServers testConfig" by (simp add: testConfig_def)
  show ?thesis
    using h C8_queue_and_servers_bounded [OF h, of "[drawsArrivalOnly, drawsServiceOnly]"]
    by blast
qed

text \<open>
  Claim C9. updateConfig replaces the configuration by the old one overridden with the
  fields present in the argument, and leaves the simulation state as it was.
\<close>

theorem C9_updateConfig_merges_and_keeps_state:
  "state (updateConfig p sim) = state sim
   \<and> arrivalRate (config (updateConfig p sim))
       = (case p_arrivalRate p of None \<Rightarrow> arrivalRate (config sim) | Some v \<Rightarrow> v)
   \<and> serviceRate (config (updateConfig p sim))
       = (case p_serviceRate p of None \<Rightarrow> serviceRate (config sim) | Some v \<Rightarrow> v)
   \<and> numServers (config (updateConfig p sim))
       = (case p_numServers p of None \<Rightarrow> numServers (config sim) | Some v \<Rightarrow> v)
   \<and> timeStep (config (updateConfig p sim))
       = (case p_timeStep p of None \<Rightarrow> timeStep (config sim) | Some v \<Rightarrow> v)
   \<and> maxCapacity_opt (config (updateConfig p sim))
       = (case p_maxCapacity p of None \<Rightarrow> maxCapacity_opt (config sim) | Some v \<Rightarrow> v)"
  by (simp add: updateConfig_def spread_def)

text \<open>
  Claim C10. getAverageQueueLength returns 0 when no step has been taken (the quotient
  0/0, which is NaN, is not computed), and cumulativeQueueLength / timeSteps for every
  state with timeSteps > 0.
\<close>

theorem C10_average_queue_length:
  "(timeSteps (state sim) = 0 \<longrightarrow> getAverageQueueLength sim = Num 0)
   \<and> (0 < timeSteps (state sim) \<longrightarrow>
        getAverageQueueLength sim
          = Num (real_of_int (cumulativeQueueLength (state sim)) / real_of_int (timeSteps (state sim))))"
  by (simp add: getAverageQueueLength_def js_div_def)

theorem C10_average_queue_length_witness:
  "timeSteps (state (newQueueSimulation testConfig)) = 0
   \<and> getAverageQueueLength (newQueueSimulation testConfig) = Num 0
   \<and> 0 < timeSteps (state (steps [drawsArrivalOnly, drawsNothing] (newQueueSimulation testConfig)))
   \<and> getAverageQueueLength (steps [drawsArrivalOnly, drawsNothing] (newQueueSimulation testConfig))
       = Num (real_of_int (cumulativeQueueLength (state (steps [drawsArrivalOnly, drawsNothing] (newQueueSimulation testConfig))))
              / real_of_int (timeSteps (state (steps [drawsArrivalOnly, drawsNothing] (newQueueSimulation testConfig)))))"
proof -
  have h0: "timeSteps (state (newQueueSimulation testConfig)) = 0"
    by (simp add: newQueueSimulation_def getInitialState_def)
  have h2: "0 < timeSteps (state (steps [drawsArrivalOnly, drawsNothing] (newQueueSimulation testConfig)))"
    by code_simp
  show ?thesis
    using h0 h2 C10_average_queue_length [of "newQueueSimulation testConfig"]
      C10_average_queue_length [of "steps [drawsArrivalOnly, drawsNothing] (newQueueSimulation testConfig)"]
    by blast
qed

end
